theory Spec2Isabelle
  imports Main
begin

section \<open>JavaScript values\<close>

text \<open>
  The fragment of JavaScript values the queue handles. \<open>JObj\<close> is an opaque object
  (an Image, a Texture) identified by a label. Asset names are strings; characters are
  taken as ASCII.
\<close>

datatype jsval = JUndefined | JNull | JBool bool | JNum int | JStr string | JObj string

text \<open>ToBoolean, as used by \<open>if (x)\<close> and \<open>!x\<close>.\<close>

fun truthy :: "jsval \<Rightarrow> bool" where
  "truthy JUndefined = False"
| "truthy JNull = False"
| "truthy (JBool b) = b"
| "truthy (JNum n) = (n \<noteq> 0)"
| "truthy (JStr s) = (s \<noteq> [])"
| "truthy (JObj l) = True"

text \<open>
  A call \<open>f(a0, a1, ...)\<close> passes an argument list; a parameter beyond the list is
  \<open>undefined\<close>. \<open>f.bind(this, b0, b1)\<close> is the function that puts the bound
  arguments in front of those of the call.
\<close>

definition arg :: "jsval list \<Rightarrow> nat \<Rightarrow> jsval" where
  "arg args i = (if i < length args then args ! i else JUndefined)"

definition js_bind :: "(jsval list \<Rightarrow> 's \<Rightarrow> 's) \<Rightarrow> jsval list \<Rightarrow> jsval list \<Rightarrow> 's \<Rightarrow> 's" where
  "js_bind f bound args = f (bound @ args)"

text \<open>What the code throws: a string, or the TypeError of a property read on undefined.\<close>

datatype error = Thrown string | TypeError

section \<open>Strings\<close>

definition toLowerCase_char :: "char \<Rightarrow> char" where
  "toLowerCase_char c =
     (let n = (of_char c :: nat) in if 65 \<le> n \<and> n \<le> 90 then char_of (n + 32) else c)"

definition toLowerCase :: "string \<Rightarrow> string" where
  "toLowerCase s = map toLowerCase_char s"

text \<open>\<open>str.indexOf(c)\<close> and \<open>str.lastIndexOf(c)\<close> for a one-character needle; -1 when absent.\<close>

fun str_indexOf_from :: "string \<Rightarrow> char \<Rightarrow> int \<Rightarrow> int" where
  "str_indexOf_from [] c i = -1"
| "str_indexOf_from (x # xs) c i = (if x = c then i else str_indexOf_from xs c (i + 1))"

definition str_indexOf :: "string \<Rightarrow> char \<Rightarrow> int" where
  "str_indexOf s c = str_indexOf_from s c 0"

fun str_lastIndexOf_from :: "string \<Rightarrow> char \<Rightarrow> int \<Rightarrow> int \<Rightarrow> int" where
  "str_lastIndexOf_from [] c i found = found"
| "str_lastIndexOf_from (x # xs) c i found =
     str_lastIndexOf_from xs c (i + 1) (if x = c then i else found)"

definition str_lastIndexOf :: "string \<Rightarrow> char \<Rightarrow> int" where
  "str_lastIndexOf s c = str_lastIndexOf_from s c 0 (-1)"

text \<open>\<open>s.split(c)\<close> for a one-character separator: never empty.\<close>

fun split_on :: "char \<Rightarrow> string \<Rightarrow> string list" where
  "split_on c [] = [[]]"
| "split_on c (x # xs) =
     (if x = c then [] # split_on c xs
      else (case split_on c xs of [] \<Rightarrow> [[x]] | p # ps \<Rightarrow> (x # p) # ps))"

section \<open>Loader key resolution\<close>

text \<open>\<open>__getDataType\<close>: \<open>None\<close> is the source's \<open>null\<close>.\<close>

definition getDataType :: "string \<Rightarrow> string option" where
  "getDataType str =
     (let test = ''data:'';
          start = toLowerCase (take (length test) str)
      in if start = test then
           (let data = drop (length test) str;
                sepIdx = str_indexOf data (CHR '','')
            in if sepIdx = -1 then None
               else
                 (let info = hd (split_on (CHR '';'') (take (nat sepIdx) data))
                  in if info = [] \<or> toLowerCase info = ''text/plain'' then Some ''txt''
                     else Some (toLowerCase (last (split_on (CHR ''/'') info)))))
         else None)"

text \<open>\<open>__extension\<close>.\<close>

definition extension :: "string \<Rightarrow> string" where
  "extension str =
     (let idx = str_lastIndexOf str (CHR ''.'')
      in if idx = -1 \<or> idx = 0 \<or> idx = int (length str) - 1 then ''''
         else toLowerCase (drop (nat (idx + 1)) str))"

section \<open>Descriptors, loaders and the queue\<close>

text \<open>
  \<open>AssetLoader.Status\<close> is an object with four own properties; reading any other
  property of it gives \<open>undefined\<close>.
\<close>

definition Status :: "(string \<times> string) list" where
  "Status = [(''QUEUED'', ''QUEUED''), (''LOADING'', ''LOADING''),
             (''LOAD_SUCCESS'', ''LOAD_SUCCESS''), (''LOAD_FAIL'', ''LOAD_FAIL'')]"

definition Status_prop :: "string \<Rightarrow> jsval" where
  "Status_prop k = (case map_of Status k of None \<Rightarrow> JUndefined | Some s \<Rightarrow> JStr s)"

text \<open>
  A start function (\<open>retObj.load\<close>) is given by what it does before it returns: the calls
  it makes, in order, to its first parameter (\<open>OnComplete\<close>) and to its second
  (\<open>OnError\<close>), each with the arguments it passes. A loader that completes later makes no
  call here; its later call is a separate step on the queue. Loaders reach the queue only
  through these two callbacks.
\<close>

datatype cbcall = OnComplete "jsval list" | OnError "jsval list"

type_synonym loadFunc = "cbcall list"

record Descriptor =
  name :: string
  loadFunc :: loadFunc
  val :: jsval
  status :: jsval

text \<open>\<open>new AssetLoader.Descriptor(name, loadFunc, value)\<close>.\<close>

definition new_Descriptor :: "string \<Rightarrow> loadFunc \<Rightarrow> jsval \<Rightarrow> Descriptor" where
  "new_Descriptor n lf v =
     \<lparr>name = n, loadFunc = lf, val = v, status = Status_prop ''QUEUED''\<rparr>"

text \<open>
  What a loader factory returns: nothing (undefined or null), or an object with a
  \<open>value\<close> and, when \<open>typeof retObj.load\<close> is "function", a start function.
\<close>

datatype retval = RetNullish | RetObj jsval "loadFunc option"

record loader =
  factory :: "jsval list \<Rightarrow> error + retval"
  extensions :: "string list option"
  mediaType :: "string option"

datatype signal = loadStarted | loadFinished | loadProgress | loadError

text \<open>
  What the queue does to the outside: \<open>Dispatch s n c t\<close> is \<open>s.dispatch\<close> of an event
  object with \<open>current = c\<close>, \<open>total = t\<close> and, when \<open>n\<close> is given, \<open>name = n\<close>;
  \<open>Start lf cb cbFail\<close> is the call of the start function \<open>lf\<close> with two bound callbacks,
  each given by its bound arguments.
\<close>

datatype effect =
    Dispatch signal "jsval option" int int
  | Start loadFunc "jsval list" "jsval list"

text \<open>
  The queue. \<open>assets\<close> and \<open>tasks\<close> hold references to the same descriptor objects, which
  live in \<open>heap\<close>; \<open>nextRef\<close> is the next unused reference. \<open>trace\<close> collects the effects
  in order.
\<close>

type_synonym ref = nat

record AssetLoader =
  heap :: "ref \<Rightarrow> Descriptor"
  nextRef :: ref
  assets :: "ref list"
  tasks :: "ref list"
  loadCount :: int
  totalItems :: int
  loading :: jsval
  loaders :: "string \<rightharpoonup> loader"
  trace :: "effect list"

definition remaining :: "AssetLoader \<Rightarrow> int" where
  "remaining st = loadCount st"

definition total :: "AssetLoader \<Rightarrow> int" where
  "total st = totalItems st"

definition current :: "AssetLoader \<Rightarrow> int" where
  "current st = total st - remaining st"

definition dispatch :: "signal \<Rightarrow> jsval option \<Rightarrow> int \<Rightarrow> int \<Rightarrow> AssetLoader \<Rightarrow> AssetLoader" where
  "dispatch s n c t st = st\<lparr>trace := trace st @ [Dispatch s n c t]\<rparr>"

section \<open>The loader registry\<close>

fun registerLoader_loop :: "(string \<rightharpoonup> loader) \<Rightarrow> loader \<Rightarrow> string list \<Rightarrow> string option
    \<Rightarrow> (string \<rightharpoonup> loader)" where
  "registerLoader_loop ls f [] mt = ls"
| "registerLoader_loop ls f (e # es) mt =
     (let ls1 = ls(e \<mapsto> f);
          ls2 = (case mt of
                   None \<Rightarrow> ls1
                 | Some m \<Rightarrow> if m \<noteq> [] then ls1(m @ ''/'' @ e \<mapsto> f) else ls1)
      in registerLoader_loop ls2 f es mt)"

definition registerLoader :: "(string \<rightharpoonup> loader) \<Rightarrow> loader option \<Rightarrow> string list option
    \<Rightarrow> string option \<Rightarrow> error + (string \<rightharpoonup> loader)" where
  "registerLoader ls loaderFunc exts mt =
     (case (loaderFunc, exts) of
        (Some f, Some es) \<Rightarrow>
          if es = [] then Inl (Thrown ''must specify at least one extension for the loader'')
          else Inr (registerLoader_loop ls f es mt)
      | _ \<Rightarrow> Inl (Thrown ''must specify at least one extension for the loader''))"

text \<open>The method \<open>registerLoader(loader)\<close> of a queue.\<close>

definition AssetLoader_registerLoader :: "loader \<Rightarrow> AssetLoader \<Rightarrow> AssetLoader \<times> (error + unit)" where
  "AssetLoader_registerLoader l st =
     (case registerLoader (loaders st) (Some l) (extensions l) (mediaType l) of
        Inl e \<Rightarrow> (st, Inl e)
      | Inr ls \<Rightarrow> (st\<lparr>loaders := ls\<rparr>, Inr ()))"

text \<open>
  The bundled image loader: its factory returns an Image and a start function that only
  installs handlers, so it calls neither callback before it returns.
\<close>

definition ImageLoader :: loader where
  "ImageLoader =
     \<lparr>factory = (\<lambda>args. Inr (RetObj (JObj ''Image'') (Some []))),
      extensions = Some [''png'', ''gif'', ''jpg'', ''jpeg''],
      mediaType = Some ''image''\<rparr>"

text \<open>The constructor, given the shared \<open>commonLoaders\<close>.\<close>

definition initialize :: "(string \<rightharpoonup> loader) \<Rightarrow> AssetLoader" where
  "initialize commonLoaders =
     fst (AssetLoader_registerLoader ImageLoader
       \<lparr>heap = (\<lambda>r. new_Descriptor [] [] JUndefined), nextRef = 0,
        assets = [], tasks = [], loadCount = 0, totalItems = 0,
        loading = JUndefined, loaders = commonLoaders, trace = []\<rparr>)"

section \<open>Lookup\<close>

text \<open>
  \<open>indexOf(list, name)\<close>: the first index whose descriptor has that name under
  \<open>===\<close>, or -1.
\<close>

fun indexOf_from :: "(ref \<Rightarrow> Descriptor) \<Rightarrow> ref list \<Rightarrow> jsval \<Rightarrow> int \<Rightarrow> int" where
  "indexOf_from h [] nm i = -1"
| "indexOf_from h (r # rs) nm i =
     (if JStr (name (h r)) = nm then i else indexOf_from h rs nm (i + 1))"

definition indexOf :: "AssetLoader \<Rightarrow> ref list \<Rightarrow> jsval \<Rightarrow> int" where
  "indexOf st list nm = indexOf_from (heap st) list nm 0"

definition getDescriptor :: "AssetLoader \<Rightarrow> jsval \<Rightarrow> Descriptor option" where
  "getDescriptor st nm =
     (let idx = indexOf st (assets st) nm
      in if idx \<noteq> -1 then Some (heap st (assets st ! nat idx)) else None)"

definition getStatus :: "AssetLoader \<Rightarrow> jsval \<Rightarrow> jsval" where
  "getStatus st nm = (case getDescriptor st nm of Some d \<Rightarrow> status d | None \<Rightarrow> JNull)"

definition isLoaded :: "AssetLoader \<Rightarrow> jsval \<Rightarrow> bool" where
  "isLoaded st nm = (getStatus st nm = Status_prop ''LOAD_SUCCESS'')"

definition get :: "AssetLoader \<Rightarrow> jsval \<Rightarrow> jsval" where
  "get st nm = (case getDescriptor st nm of Some d \<Rightarrow> val d | None \<Rightarrow> JNull)"

section \<open>Adding assets\<close>

definition DuplicateAsset :: error where
  "DuplicateAsset = Thrown ''asset already defined in asset manager''"

text \<open>
  \<open>addAs(loader, name, ...args)\<close>. The loader argument may be missing (\<open>None\<close>). Every
  \<open>throw\<close> comes before the first assignment, so a call that throws returns the queue it
  was given.
\<close>

definition addAs :: "loader option \<Rightarrow> string \<Rightarrow> jsval list \<Rightarrow> AssetLoader
    \<Rightarrow> AssetLoader \<times> (error + jsval)" where
  "addAs l nm args st =
     (if nm = [] then (st, Inl (Thrown ''no name specified to load''))
      else case l of
        None \<Rightarrow> (st, Inl (Thrown (''no loader specified for asset '' @ nm)))
      | Some f \<Rightarrow>
          (let idx = indexOf st (assets st) (JStr nm)
           in if idx \<noteq> -1 then (st, Inl DuplicateAsset)
              else case factory f (JStr nm # args) of
                Inl e \<Rightarrow> (st, Inl e)
              | Inr RetNullish \<Rightarrow> (st, Inl TypeError)
              | Inr (RetObj v None) \<Rightarrow>
                  (st, Inl (Thrown ''loader not implemented correctly; must return a 'load' function''))
              | Inr (RetObj v (Some lf)) \<Rightarrow>
                  (let r = nextRef st;
                       descriptor = new_Descriptor nm lf v;
                       st1 = st\<lparr>heap := (heap st)(r := descriptor), nextRef := Suc r\<rparr>;
                       st2 = st1\<lparr>assets := assets st1 @ [r]\<rparr>;
                       st3 = st2\<lparr>tasks := tasks st2 @ [r]\<rparr>;
                       st4 = st3\<lparr>loadCount := loadCount st3 + 1\<rparr>;
                       st5 = st4\<lparr>totalItems := totalItems st4 + 1\<rparr>
                   in (st5, Inr v))))"

text \<open>\<open>add(name, ...args)\<close>.\<close>

definition add :: "string \<Rightarrow> jsval list \<Rightarrow> AssetLoader \<Rightarrow> AssetLoader \<times> (error + jsval)" where
  "add nm args st =
     (if nm = [] then (st, Inl (Thrown ''No asset name specified for add()''))
      else
        (let ext = (case getDataType nm of None \<Rightarrow> extension nm | Some e \<Rightarrow> e)
         in if ext = [] then
              (st, Inl (Thrown (''Asset name does not have a file extension: '' @ nm)))
            else if loaders st ext = None then
              (st, Inl (Thrown (''No known loader for extension '' @ ext @ '' in asset '' @ nm)))
            else addAs (loaders st ext) nm args st))"

text \<open>\<open>addAll(array)\<close>: a \<open>throw\<close> of one \<open>add\<close> ends the loop; the assets added before stay.\<close>

fun addAll :: "string list \<Rightarrow> AssetLoader \<Rightarrow> AssetLoader \<times> (error + jsval list)" where
  "addAll [] st = (st, Inr [])"
| "addAll (n # ns) st =
     (case add n [] st of
        (st1, Inl e) \<Rightarrow> (st1, Inl e)
      | (st1, Inr v) \<Rightarrow>
          (case addAll ns st1 of
             (st2, Inl e) \<Rightarrow> (st2, Inl e)
           | (st2, Inr vs) \<Rightarrow> (st2, Inr (v # vs))))"

section \<open>Removing assets and resetting\<close>

text \<open>\<open>list.splice(i, 1)\<close>.\<close>

definition splice1 :: "'a list \<Rightarrow> nat \<Rightarrow> 'a list" where
  "splice1 xs i = take i xs @ drop (Suc i) xs"

definition remove :: "jsval \<Rightarrow> AssetLoader \<Rightarrow> AssetLoader \<times> jsval" where
  "remove nm st =
     (let assetIdx = indexOf st (assets st) nm
      in if assetIdx = -1 then (st, JNull)
         else
           (let asset = assets st ! nat assetIdx;
                st1 = st\<lparr>assets := splice1 (assets st) (nat assetIdx)\<rparr>;
                taskIdx = indexOf st1 (tasks st1) nm;
                st2 = st1\<lparr>totalItems := max 0 (totalItems st1 - 1)\<rparr>;
                st3 = st2\<lparr>loadCount := max 0 (loadCount st2 - 1)\<rparr>;
                st4 = (if taskIdx \<noteq> -1 then st3\<lparr>tasks := splice1 (tasks st3) (nat taskIdx)\<rparr>
                       else st3);
                st5 = (if loadCount st4 = 0 then
                         (if truthy (loading st4) then dispatch loadFinished None 0 0 st4
                          else st4)\<lparr>loading := JBool False\<rparr>
                       else st4)
            in (st5, val (heap st asset))))"

definition removeAll :: "AssetLoader \<Rightarrow> AssetLoader" where
  "removeAll st =
     (let st1 = st\<lparr>assets := [], tasks := [], loadCount := 0, totalItems := 0\<rparr>;
          st2 = (if truthy (loading st1) then dispatch loadFinished None 0 0 st1 else st1)
      in st2\<lparr>loading := JBool False\<rparr>)"

definition destroy :: "AssetLoader \<Rightarrow> AssetLoader" where
  "destroy st = removeAll st"

text \<open>\<open>invalidate()\<close>: the loop sets the status of every object the asset list refers to.\<close>

fun invalidate_loop :: "ref list \<Rightarrow> (ref \<Rightarrow> Descriptor) \<Rightarrow> (ref \<Rightarrow> Descriptor)" where
  "invalidate_loop [] h = h"
| "invalidate_loop (r # rs) h =
     invalidate_loop rs (h(r := (h r)\<lparr>status := Status_prop ''QUEUED''\<rparr>))"

definition invalidate :: "AssetLoader \<Rightarrow> AssetLoader" where
  "invalidate st =
     (let st1 = st\<lparr>heap := invalidate_loop (assets st) (heap st)\<rparr>;
          st2 = st1\<lparr>tasks := assets st1\<rparr>;
          n = int (length (tasks st2))
      in st2\<lparr>totalItems := n, loadCount := n\<rparr>)"

section \<open>Completion and the driver\<close>

text \<open>
  \<open>__loadCallback(name, success)\<close>. \<open>AssetLoader.Status.LOAD_FAILED\<close> is a property
  read, hence \<open>Status_prop\<close>.
\<close>

definition loadCallback :: "jsval \<Rightarrow> jsval \<Rightarrow> AssetLoader \<Rightarrow> AssetLoader" where
  "loadCallback nm success0 st =
     (let success = (success0 \<noteq> JBool False);
          assetIdx = indexOf st (assets st) nm
      in if assetIdx = -1 then st
         else
           (let st1 = st\<lparr>loadCount := loadCount st - 1\<rparr>;
                r = assets st1 ! nat assetIdx;
                st2 = st1\<lparr>heap := (heap st1)(r := (heap st1 r)
                        \<lparr>status := (if success then Status_prop ''LOAD_SUCCESS''
                                    else Status_prop ''LOAD_FAILED'')\<rparr>)\<rparr>;
                cur = totalItems st2 - loadCount st2;
                tot = totalItems st2;
                st3 = (if \<not> success then dispatch loadError (Some nm) cur tot st2 else st2);
                st4 = dispatch loadProgress (Some nm) cur tot st3
            in if loadCount st4 = 0 then
                 dispatch loadFinished None cur tot (st4\<lparr>loading := JBool False\<rparr>)
               else st4))"

text \<open>The function as it is called: with an argument list.\<close>

definition loadCallback_call :: "jsval list \<Rightarrow> AssetLoader \<Rightarrow> AssetLoader" where
  "loadCallback_call args st = loadCallback (arg args 0) (arg args 1) st"

text \<open>
  \<open>loader.call(this, cb, cbFail)\<close>: the start function runs, calling the callbacks it was
  given as its behaviour says.
\<close>

fun invoke_cb :: "(jsval list \<Rightarrow> AssetLoader \<Rightarrow> AssetLoader) \<Rightarrow> (jsval list \<Rightarrow> AssetLoader \<Rightarrow> AssetLoader)
    \<Rightarrow> cbcall \<Rightarrow> AssetLoader \<Rightarrow> AssetLoader" where
  "invoke_cb cb cbFail (OnComplete args) st = cb args st"
| "invoke_cb cb cbFail (OnError args) st = cbFail args st"

fun call_loadFunc :: "loadFunc \<Rightarrow> (jsval list \<Rightarrow> AssetLoader \<Rightarrow> AssetLoader)
    \<Rightarrow> (jsval list \<Rightarrow> AssetLoader \<Rightarrow> AssetLoader) \<Rightarrow> AssetLoader \<Rightarrow> AssetLoader" where
  "call_loadFunc [] cb cbFail st = st"
| "call_loadFunc (c # cs) cb cbFail st = call_loadFunc cs cb cbFail (invoke_cb cb cbFail c st)"

definition update :: "AssetLoader \<Rightarrow> AssetLoader \<times> bool" where
  "update st =
     (if length (tasks st) = 0 then (st, loadCount st = 0)
      else
        (let st1 = (if length (tasks st) = length (assets st) then
                      dispatch loadStarted None 0 (totalItems st) (st\<lparr>loading := JBool True\<rparr>)
                    else st);
             nextTask = heap st1 (hd (tasks st1));
             st2 = st1\<lparr>tasks := tl (tasks st1)\<rparr>;
             loader = loadFunc nextTask;
             cb = [JStr (name nextTask), JBool True];
             cbFail = [JStr (name nextTask), JBool False];
             st3 = st2\<lparr>trace := trace st2 @ [Start loader cb cbFail]\<rparr>;
             st4 = call_loadFunc loader (js_bind loadCallback_call cb)
                     (js_bind loadCallback_call cbFail) st3
         in (st4, loadCount st4 = 0)))"

text \<open>\<open>load()\<close>: the loop runs \<open>update()\<close> while the pending list is not empty. Each
  round takes one descriptor off the list, so the loop ends.\<close>

function load :: "AssetLoader \<Rightarrow> AssetLoader" where
  "load st = (if length (tasks st) > 0 then load (fst (update st)) else st)"
  by pat_completeness auto

termination
proof (relation "measure (\<lambda>st. length (tasks st))")
  show "wf (measure (\<lambda>st. length (tasks st)))" by simp
next
  fix st :: AssetLoader
  assume pending: "0 < length (tasks st)"
  have cb: "\<And>nm s q. tasks (loadCallback nm s q) = tasks q"
    by (simp add: loadCallback_def dispatch_def Let_def)
  have one: "\<And>f g c q. tasks (invoke_cb (js_bind loadCallback_call f) (js_bind loadCallback_call g) c q)
      = tasks q"
  proof -
    fix f g c q
    show "tasks (invoke_cb (js_bind loadCallback_call f) (js_bind loadCallback_call g) c q) = tasks q"
      by (cases c) (simp_all add: js_bind_def loadCallback_call_def cb)
  qed
  have run: "\<And>lf f g q. tasks (call_loadFunc lf (js_bind loadCallback_call f)
      (js_bind loadCallback_call g) q) = tasks q"
  proof -
    fix lf f g q
    show "tasks (call_loadFunc lf (js_bind loadCallback_call f) (js_bind loadCallback_call g) q)
        = tasks q"
      by (induction lf arbitrary: q) (simp_all add: one)
  qed
  have "tasks (fst (update st)) = tl (tasks st)"
    using pending by (simp add: update_def Let_def run dispatch_def)
  with pending show "(fst (update st), st) \<in> measure (\<lambda>st. length (tasks st))"
    by simp
qed

declare load.simps [simp del]

section \<open>Notions used to state the properties\<close>

text \<open>The names, as JavaScript values, of the descriptors a list refers to.\<close>

definition names_of :: "AssetLoader \<Rightarrow> ref list \<Rightarrow> jsval list" where
  "names_of st list = map (\<lambda>r. JStr (name (heap st r))) list"

fun is_Start :: "effect \<Rightarrow> bool" where
  "is_Start (Start lf cb cbFail) = True"
| "is_Start (Dispatch s n c t) = False"

text \<open>The effects a step added to the trace.\<close>

definition new_effects :: "AssetLoader \<Rightarrow> AssetLoader \<Rightarrow> effect list" where
  "new_effects st st' = drop (length (trace st)) (trace st')"

text \<open>
  Example queues: a fresh queue with no common loaders; the same with a.png and b.gif
  added; and that one after two calls of \<open>update()\<close>, both loads in flight.
\<close>

definition queue0 :: AssetLoader where
  "queue0 = initialize Map.empty"

definition queue_ab :: AssetLoader where
  "queue_ab = fst (add ''b.gif'' [] (fst (add ''a.png'' [] queue0)))"

definition queue_inflight :: AssetLoader where
  "queue_inflight = fst (update (fst (update queue_ab)))"

text \<open>The two callbacks \<open>update()\<close> hands to the start function of the asset \<open>nm\<close>.\<close>

definition cb_of :: "jsval \<Rightarrow> jsval list \<Rightarrow> AssetLoader \<Rightarrow> AssetLoader" where
  "cb_of nm = js_bind loadCallback_call [nm, JBool True]"

definition cbFail_of :: "jsval \<Rightarrow> jsval list \<Rightarrow> AssetLoader \<Rightarrow> AssetLoader" where
  "cbFail_of nm = js_bind loadCallback_call [nm, JBool False]"

text \<open>
  The race of removal and completion: both loads in flight, b.gif completes, b.gif is
  removed, then a.png completes.
\<close>

definition queue_b_done :: AssetLoader where
  "queue_b_done = cb_of (JStr ''b.gif'') [] queue_inflight"

definition queue_b_removed :: AssetLoader where
  "queue_b_removed = fst (remove (JStr ''b.gif'') queue_b_done)"

definition queue_a_late :: AssetLoader where
  "queue_a_late = cb_of (JStr ''a.png'') [] queue_b_removed"

text \<open>
  Removal of a started asset: a.png is started, a.png is removed, \<open>update()\<close> is called
  again.
\<close>

definition queue_a_started :: AssetLoader where
  "queue_a_started = fst (update queue_ab)"

definition queue_a_removed :: AssetLoader where
  "queue_a_removed = fst (remove (JStr ''a.png'') queue_a_started)"

definition queue_b_started :: AssetLoader where
  "queue_b_started = fst (update queue_a_removed)"

text \<open>A queue holding one asset under a generic name, added with an explicit loader.\<close>

definition queue_sprite :: AssetLoader where
  "queue_sprite = fst (addAs (Some ImageLoader) ''sprite'' [] queue0)"

text \<open>A callback call with its arguments dropped: which callback, and nothing else.\<close>

fun strip_args :: "cbcall \<Rightarrow> cbcall" where
  "strip_args (OnComplete a) = OnComplete []"
| "strip_args (OnError a) = OnError []"

text \<open>
  A queue with the start functions themselves left out (the \<open>loadFunc\<close> of every descriptor
  and the one named in a \<open>Start\<close> effect): names, values, statuses, lists, counters, the
  loading flag and every event are kept.
\<close>

fun forget_effect :: "effect \<Rightarrow> effect" where
  "forget_effect (Start lf cb cbFail) = Start [] cb cbFail"
| "forget_effect (Dispatch s n c t) = Dispatch s n c t"

definition forget_loadFunc :: "AssetLoader \<Rightarrow> AssetLoader" where
  "forget_loadFunc st =
     st\<lparr>heap := (\<lambda>r. (heap st r)\<lparr>loadFunc := []\<rparr>), trace := map forget_effect (trace st)\<rparr>"

text \<open>The same queue with another start function in the descriptor \<open>r\<close>.\<close>

definition set_loadFunc :: "ref \<Rightarrow> loadFunc \<Rightarrow> AssetLoader \<Rightarrow> AssetLoader" where
  "set_loadFunc r lf st = st\<lparr>heap := (heap st)(r := (heap st r)\<lparr>loadFunc := lf\<rparr>)\<rparr>"

text \<open>
  The queue as \<open>update()\<close> has it when the pending list is not empty and the start function
  is about to run: the started event fired if it was due, the first descriptor taken off
  the pending list, the call with its two bound callbacks recorded.
\<close>

definition before_call :: "AssetLoader \<Rightarrow> AssetLoader" where
  "before_call st =
     (let st1 = (if length (tasks st) = length (assets st)
                 then dispatch loadStarted None 0 (total st) (st\<lparr>loading := JBool True\<rparr>)
                 else st);
          d = heap st (hd (tasks st))
      in st1\<lparr>tasks := tl (tasks st),
             trace := trace st1 @ [Start (loadFunc d) [JStr (name d), JBool True]
                                     [JStr (name d), JBool False]]\<rparr>)"

text \<open>
  A loader for the extension dat whose start function makes the given callback calls
  before it returns, and a fresh queue holding one asset of it.
\<close>

definition SyncLoader :: "loadFunc \<Rightarrow> loader" where
  "SyncLoader lf =
     \<lparr>factory = (\<lambda>args. Inr (RetObj (JObj ''Thing'') (Some lf))),
      extensions = Some [''dat''], mediaType = None\<rparr>"

definition queue_sync :: "loadFunc \<Rightarrow> AssetLoader" where
  "queue_sync lf = fst (addAs (Some (SyncLoader lf)) ''s.dat'' [] queue0)"

text \<open>A queue holding notes.txt, added with an explicit loader; no loader is registered for txt.\<close>

definition queue_txt :: AssetLoader where
  "queue_txt = fst (addAs (Some ImageLoader) ''notes.txt'' [] queue0)"

text \<open>The key \<open>add\<close> computes for a name: the data-URI type, else the file extension.\<close>

definition loader_key :: "string \<Rightarrow> string" where
  "loader_key nm = (case getDataType nm of None \<Rightarrow> extension nm | Some e \<Rightarrow> e)"

section \<open>Facts about lookup\<close>

lemma indexOf_from_range:
  "indexOf_from h rs nm i = -1 \<or> (i \<le> indexOf_from h rs nm i \<and> indexOf_from h rs nm i < i + int (length rs))"
  by (induction rs arbitrary: i) (auto, force+)

lemma indexOf_from_absent:
  "nm \<notin> set (map (\<lambda>r. JStr (name (h r))) rs) \<Longrightarrow> indexOf_from h rs nm i = -1"
  by (induction rs arbitrary: i) auto

lemma indexOf_from_present:
  "0 \<le> i \<Longrightarrow> nm \<in> set (map (\<lambda>r. JStr (name (h r))) rs) \<Longrightarrow>
   i \<le> indexOf_from h rs nm i \<and> indexOf_from h rs nm i < i + int (length rs)
   \<and> JStr (name (h (rs ! nat (indexOf_from h rs nm i - i)))) = nm"
proof (induction rs arbitrary: i)
  case Nil
  then show ?case by simp
next
  case (Cons r rs)
  show ?case
  proof (cases "JStr (name (h r)) = nm")
    case True
    then show ?thesis by simp
  next
    case False
    with Cons.prems have "nm \<in> set (map (\<lambda>r. JStr (name (h r))) rs)" by auto
    with Cons.IH [of "i + 1"] Cons.prems(1)
    have ih: "i + 1 \<le> indexOf_from h rs nm (i + 1)"
      "indexOf_from h rs nm (i + 1) < i + 1 + int (length rs)"
      "JStr (name (h (rs ! nat (indexOf_from h rs nm (i + 1) - (i + 1))))) = nm"
      by auto
    have "nat (indexOf_from h rs nm (i + 1) - i) = Suc (nat (indexOf_from h rs nm (i + 1) - (i + 1)))"
      using ih(1) by simp
    with ih False show ?thesis by simp
  qed
qed

lemma indexOf_absent:
  "nm \<notin> set (names_of st list) \<Longrightarrow> indexOf st list nm = -1"
  by (simp add: indexOf_def names_of_def indexOf_from_absent)

lemma indexOf_present:
  assumes "nm \<in> set (names_of st list)"
  shows "0 \<le> indexOf st list nm" and "indexOf st list nm < int (length list)"
    and "JStr (name (heap st (list ! nat (indexOf st list nm)))) = nm"
  using indexOf_from_present [of 0 nm "heap st" list] assms
  by (simp_all add: indexOf_def names_of_def)

lemma indexOf_from_names_cong:
  "(\<And>r. name (h' r) = name (h r)) \<Longrightarrow> indexOf_from h' rs nm i = indexOf_from h rs nm i"
  by (induction rs arbitrary: i) auto

section \<open>Facts about the completion callback\<close>

lemma bound_callback_eq:
  "js_bind loadCallback_call [nm, s] args st = loadCallback nm s st"
  by (simp add: js_bind_def loadCallback_call_def arg_def)

lemma loadCallback_absent:
  "nm \<notin> set (names_of st (assets st)) \<Longrightarrow> loadCallback nm s st = st"
  by (simp add: loadCallback_def indexOf_absent)

lemma loadCallback_frame:
  "tasks (loadCallback nm s st) = tasks st"
  "assets (loadCallback nm s st) = assets st"
  "totalItems (loadCallback nm s st) = totalItems st"
  "loaders (loadCallback nm s st) = loaders st"
  "nextRef (loadCallback nm s st) = nextRef st"
  by (simp_all add: loadCallback_def dispatch_def Let_def)

lemma loadCallback_present_counts:
  assumes "nm \<in> set (names_of st (assets st))"
  shows "loadCount (loadCallback nm s st) = loadCount st - 1"
  using indexOf_present(1) [OF assms]
  by (simp add: loadCallback_def dispatch_def Let_def)

lemma loadCallback_present_loading:
  assumes "nm \<in> set (names_of st (assets st))"
  shows "loading (loadCallback nm s st) = (if loadCount st - 1 = 0 then JBool False else loading st)"
  using indexOf_present(1) [OF assms]
  by (simp add: loadCallback_def dispatch_def Let_def)

lemma loadCallback_present_trace:
  assumes "nm \<in> set (names_of st (assets st))"
  shows "trace (loadCallback nm s st) =
     trace st
     @ (if s = JBool False
        then [Dispatch loadError (Some nm) (totalItems st - (loadCount st - 1)) (totalItems st)] else [])
     @ [Dispatch loadProgress (Some nm) (totalItems st - (loadCount st - 1)) (totalItems st)]
     @ (if loadCount st - 1 = 0
        then [Dispatch loadFinished None (totalItems st - (loadCount st - 1)) (totalItems st)] else [])"
  using indexOf_present(1) [OF assms]
  by (simp add: loadCallback_def dispatch_def Let_def)

lemma loadCallback_present_status:
  assumes "nm \<in> set (names_of st (assets st))"
  shows "getStatus (loadCallback nm s st) nm =
     (if s \<noteq> JBool False then Status_prop ''LOAD_SUCCESS'' else Status_prop ''LOAD_FAILED'')"
proof -
  let ?i = "indexOf st (assets st) nm"
  let ?st' = "loadCallback nm s st"
  have i: "?i \<noteq> -1" using indexOf_present(1) [OF assms] by simp
  have names: "\<And>r. name (heap ?st' r) = name (heap st r)"
    using i by (simp add: loadCallback_def dispatch_def Let_def)
  have idx: "indexOf ?st' (assets ?st') nm = ?i"
    unfolding indexOf_def loadCallback_frame
    by (rule indexOf_from_names_cong) (rule names)
  have "status (heap ?st' (assets st ! nat ?i)) =
     (if s \<noteq> JBool False then Status_prop ''LOAD_SUCCESS'' else Status_prop ''LOAD_FAILED'')"
    using i by (simp add: loadCallback_def dispatch_def Let_def)
  with i idx show ?thesis
    by (simp add: getStatus_def getDescriptor_def loadCallback_frame)
qed

section \<open>The example queues\<close>

lemmas run_defs =
  initialize_def AssetLoader_registerLoader_def registerLoader_def ImageLoader_def
  add_def addAs_def getDataType_def extension_def toLowerCase_def toLowerCase_char_def
  str_lastIndexOf_def str_indexOf_def update_def loadCallback_call_def loadCallback_def
  remove_def indexOf_def new_Descriptor_def Status_prop_def Status_def dispatch_def
  js_bind_def arg_def splice1_def Let_def DuplicateAsset_def

lemma queue0_loaders:
  "loaders queue0 ''png'' = Some ImageLoader"
  "loaders queue0 ''gif'' = Some ImageLoader"
  by (simp_all add: queue0_def initialize_def AssetLoader_registerLoader_def registerLoader_def
      ImageLoader_def)

lemma queue0_fields:
  "assets queue0 = []" "tasks queue0 = []" "loadCount queue0 = 0" "totalItems queue0 = 0"
  "loading queue0 = JUndefined" "trace queue0 = []" "nextRef queue0 = 0"
  by (simp_all add: queue0_def initialize_def AssetLoader_registerLoader_def registerLoader_def
      ImageLoader_def)

lemma queue_ab_fields:
  "assets queue_ab = [0, 1]" "tasks queue_ab = [0, 1]"
  "loadCount queue_ab = 2" "totalItems queue_ab = 2"
  "loading queue_ab = JUndefined" "trace queue_ab = []"
  "heap queue_ab 0 = new_Descriptor ''a.png'' [] (JObj ''Image'')"
  "heap queue_ab (Suc 0) = new_Descriptor ''b.gif'' [] (JObj ''Image'')"
  by (simp_all add: queue_ab_def queue0_def run_defs)

lemma queue_inflight_fields:
  "assets queue_inflight = [0, 1]" "tasks queue_inflight = []"
  "loadCount queue_inflight = 2" "totalItems queue_inflight = 2"
  "loading queue_inflight = JBool True"
  "trace queue_inflight =
     [Dispatch loadStarted None 0 2,
      Start [] [JStr ''a.png'', JBool True] [JStr ''a.png'', JBool False],
      Start [] [JStr ''b.gif'', JBool True] [JStr ''b.gif'', JBool False]]"
  "heap queue_inflight 0 = new_Descriptor ''a.png'' [] (JObj ''Image'')"
  "heap queue_inflight (Suc 0) = new_Descriptor ''b.gif'' [] (JObj ''Image'')"
  by (simp_all add: queue_inflight_def update_def queue_ab_fields dispatch_def Let_def new_Descriptor_def)

lemma queue_inflight_names:
  "names_of queue_inflight (assets queue_inflight) = [JStr ''a.png'', JStr ''b.gif'']"
  by (simp add: names_of_def queue_inflight_fields new_Descriptor_def)

section \<open>Facts about the driver\<close>

lemma invoke_cb_frame:
  "tasks (invoke_cb (js_bind loadCallback_call cb) (js_bind loadCallback_call cbFail) c st) = tasks st"
  "assets (invoke_cb (js_bind loadCallback_call cb) (js_bind loadCallback_call cbFail) c st) = assets st"
  "totalItems (invoke_cb (js_bind loadCallback_call cb) (js_bind loadCallback_call cbFail) c st) = totalItems st"
  by (cases c; simp add: js_bind_def loadCallback_call_def loadCallback_frame)+

lemma call_loadFunc_frame:
  "tasks (call_loadFunc lf (js_bind loadCallback_call cb) (js_bind loadCallback_call cbFail) st) = tasks st
   \<and> assets (call_loadFunc lf (js_bind loadCallback_call cb) (js_bind loadCallback_call cbFail) st) = assets st
   \<and> totalItems (call_loadFunc lf (js_bind loadCallback_call cb) (js_bind loadCallback_call cbFail) st) = totalItems st"
  by (induction lf arbitrary: st) (simp_all add: invoke_cb_frame)

lemma loadCallback_no_Start:
  "filter is_Start (trace (loadCallback nm s st)) = filter is_Start (trace st)"
  by (simp add: loadCallback_def dispatch_def Let_def)

lemma loadCallback_trace_grows:
  "\<exists>evs. trace (loadCallback nm s st) = trace st @ evs \<and> filter is_Start evs = []"
  by (simp add: loadCallback_def dispatch_def Let_def)

lemma call_loadFunc_trace:
  "\<exists>evs. trace (call_loadFunc lf (js_bind loadCallback_call cb) (js_bind loadCallback_call cbFail) st)
            = trace st @ evs \<and> filter is_Start evs = []"
proof (induction lf arbitrary: st)
  case Nil
  then show ?case by simp
next
  case (Cons c cs)
  let ?st1 = "invoke_cb (js_bind loadCallback_call cb) (js_bind loadCallback_call cbFail) c st"
  obtain e1 where e1: "trace ?st1 = trace st @ e1" "filter is_Start e1 = []"
    using loadCallback_trace_grows
    by (cases c) (fastforce simp: js_bind_def loadCallback_call_def)+
  obtain e2 where e2:
    "trace (call_loadFunc cs (js_bind loadCallback_call cb) (js_bind loadCallback_call cbFail) ?st1)
       = trace ?st1 @ e2" "filter is_Start e2 = []"
    using Cons.IH [of ?st1] by blast
  show ?case
    by (rule exI [of _ "e1 @ e2"]) (simp add: e1 e2)
qed

lemma load_drains: "tasks (load st) = []"
proof (induction st rule: load.induct)
  case (1 st)
  show ?case
  proof (cases "0 < length (tasks st)")
    case True
    then have "load st = load (fst (update st))"
      by (subst load.simps) simp
    with 1 True show ?thesis by simp
  next
    case False
    then have "load st = st"
      by (subst load.simps) simp
    with False show ?thesis by simp
  qed
qed

section \<open>More example queues\<close>

lemma queue_a_started_fields:
  "assets queue_a_started = [0, 1]" "tasks queue_a_started = [1]"
  "loadCount queue_a_started = 2" "totalItems queue_a_started = 2"
  "loading queue_a_started = JBool True"
  "trace queue_a_started =
     [Dispatch loadStarted None 0 2,
      Start [] [JStr ''a.png'', JBool True] [JStr ''a.png'', JBool False]]"
  "heap queue_a_started 0 = new_Descriptor ''a.png'' [] (JObj ''Image'')"
  "heap queue_a_started (Suc 0) = new_Descriptor ''b.gif'' [] (JObj ''Image'')"
  by (simp_all add: queue_a_started_def update_def queue_ab_fields dispatch_def Let_def new_Descriptor_def)

lemma queue_a_removed_fields:
  "assets queue_a_removed = [1]" "tasks queue_a_removed = [1]"
  "loadCount queue_a_removed = 1" "totalItems queue_a_removed = 1"
  "loading queue_a_removed = JBool True"
  "trace queue_a_removed =
     [Dispatch loadStarted None 0 2,
      Start [] [JStr ''a.png'', JBool True] [JStr ''a.png'', JBool False]]"
  "heap queue_a_removed (Suc 0) = new_Descriptor ''b.gif'' [] (JObj ''Image'')"
  by (simp_all add: queue_a_removed_def remove_def indexOf_def queue_a_started_fields
      dispatch_def Let_def new_Descriptor_def splice1_def)

lemma queue_b_started_fields:
  "trace queue_b_started =
     [Dispatch loadStarted None 0 2,
      Start [] [JStr ''a.png'', JBool True] [JStr ''a.png'', JBool False],
      Dispatch loadStarted None 0 1,
      Start [] [JStr ''b.gif'', JBool True] [JStr ''b.gif'', JBool False]]"
  by (simp_all add: queue_b_started_def update_def queue_a_removed_fields dispatch_def Let_def
      new_Descriptor_def)

lemma queue_b_done_fields:
  "assets queue_b_done = [0, 1]" "tasks queue_b_done = []"
  "loadCount queue_b_done = 1" "totalItems queue_b_done = 2"
  "loading queue_b_done = JBool True"
  "heap queue_b_done 0 = new_Descriptor ''a.png'' [] (JObj ''Image'')"
  "name (heap queue_b_done (Suc 0)) = ''b.gif''"
  "status (heap queue_b_done (Suc 0)) = JStr ''LOAD_SUCCESS''"
  by (simp_all add: queue_b_done_def cb_of_def bound_callback_eq loadCallback_def indexOf_def
      queue_inflight_fields dispatch_def Let_def new_Descriptor_def Status_prop_def Status_def)

lemma queue_b_removed_fields:
  "assets queue_b_removed = [0]" "tasks queue_b_removed = []"
  "loadCount queue_b_removed = 0" "totalItems queue_b_removed = 1"
  "loading queue_b_removed = JBool False"
  "heap queue_b_removed 0 = new_Descriptor ''a.png'' [] (JObj ''Image'')"
  by (simp_all add: queue_b_removed_def remove_def indexOf_def queue_b_done_fields
      dispatch_def Let_def new_Descriptor_def splice1_def)

section \<open>Facts about key resolution and adding\<close>

lemma str_indexOf_from_absent:
  "c \<notin> set s \<Longrightarrow> str_indexOf_from s c i = -1"
  by (induction s arbitrary: i) auto

lemma str_indexOf_absent:
  "c \<notin> set s \<Longrightarrow> str_indexOf s c = -1"
  by (simp add: str_indexOf_def str_indexOf_from_absent)

lemma toLowerCase_data: "toLowerCase ''data:'' = ''data:''"
  by (simp add: toLowerCase_def toLowerCase_char_def)

lemma getDataType_no_comma:
  assumes "take 5 nm = ''data:''" and "CHR '','' \<notin> set nm"
  shows "getDataType nm = None"
proof -
  have "CHR '','' \<notin> set (drop (length ''data:'') nm)"
    using assms(2) by (meson in_set_dropD)
  then have d: "str_indexOf (drop (length ''data:'') nm) (CHR '','') = -1"
    by (rule str_indexOf_absent)
  have t: "take (length ''data:'') nm = ''data:''"
    using assms(1) by (simp add: eval_nat_numeral)
  show ?thesis
    unfolding getDataType_def Let_def t d by simp
qed

lemma addAs_error_keeps_state:
  "snd (addAs l nm args st) = Inl e \<Longrightarrow> fst (addAs l nm args st) = st"
  by (auto simp: addAs_def Let_def split: if_splits option.splits sum.splits retval.splits)

lemma queue_sprite_fields:
  "assets queue_sprite = [0]"
  "heap queue_sprite 0 = new_Descriptor ''sprite'' [] (JObj ''Image'')"
  "loaders queue_sprite = loaders queue0"
  by (simp_all add: queue_sprite_def addAs_def indexOf_def queue0_fields ImageLoader_def Let_def)

lemma addAs_loaders: "loaders (fst (addAs l nm args st)) = loaders st"
  by (simp add: addAs_def Let_def split: option.splits sum.splits retval.splits)

lemma add_loaders: "loaders (fst (add nm args st)) = loaders st"
  by (simp add: add_def Let_def addAs_loaders)

lemma invoke_cb_loaders:
  "loaders (invoke_cb (js_bind loadCallback_call cb) (js_bind loadCallback_call cbFail) c st) = loaders st"
  by (cases c; simp add: js_bind_def loadCallback_call_def loadCallback_frame)

lemma call_loadFunc_loaders:
  "loaders (call_loadFunc lf (js_bind loadCallback_call cb) (js_bind loadCallback_call cbFail) st) = loaders st"
  by (induction lf arbitrary: st) (simp_all add: invoke_cb_loaders)

lemma update_loaders: "loaders (fst (update st)) = loaders st"
  by (simp add: update_def Let_def call_loadFunc_loaders dispatch_def)

lemma queue_loaders:
  "loaders queue_ab = loaders queue0" "loaders queue_inflight = loaders queue0"
  by (simp_all add: queue_ab_def queue_inflight_def add_loaders update_loaders)

section \<open>Facts about one step of the driver\<close>

lemma bound_callback_fun:
  "js_bind loadCallback_call [nm, s] = (\<lambda>args. loadCallback nm s)"
  by (rule ext, rule ext) (simp add: bound_callback_eq)

lemma update_nonempty:
  assumes "tasks st = r # rest"
  shows "update st =
     (call_loadFunc (loadFunc (heap st r))
        (\<lambda>args. loadCallback (JStr (name (heap st r))) (JBool True))
        (\<lambda>args. loadCallback (JStr (name (heap st r))) (JBool False)) (before_call st),
      loadCount (call_loadFunc (loadFunc (heap st r))
        (\<lambda>args. loadCallback (JStr (name (heap st r))) (JBool True))
        (\<lambda>args. loadCallback (JStr (name (heap st r))) (JBool False)) (before_call st)) = 0)"
  using assms
  by (simp add: update_def before_call_def bound_callback_fun dispatch_def total_def Let_def)

lemma call_loadFunc_strip:
  "call_loadFunc (map strip_args lf) (\<lambda>a. F) (\<lambda>a. G) st = call_loadFunc lf (\<lambda>a. F) (\<lambda>a. G) st"
proof (induction lf arbitrary: st)
  case Nil
  then show ?case by simp
next
  case (Cons c cs)
  then show ?case by (cases c) simp_all
qed

lemma indexOf_forget:
  "indexOf (forget_loadFunc st) list nm = indexOf st list nm"
  unfolding indexOf_def
  by (rule indexOf_from_names_cong) (simp add: forget_loadFunc_def)

lemma forget_fields:
  "assets (forget_loadFunc st) = assets st" "tasks (forget_loadFunc st) = tasks st"
  "loadCount (forget_loadFunc st) = loadCount st" "totalItems (forget_loadFunc st) = totalItems st"
  "loading (forget_loadFunc st) = loading st"
  "heap (forget_loadFunc st) = (\<lambda>r. (heap st r)\<lparr>loadFunc := []\<rparr>)"
  "trace (forget_loadFunc st) = map forget_effect (trace st)"
  by (simp_all add: forget_loadFunc_def)

lemma loadCallback_present_eq:
  assumes "indexOf st (assets st) nm \<noteq> -1"
  shows "loadCallback nm s st =
     st\<lparr>heap := (heap st)(assets st ! nat (indexOf st (assets st) nm) :=
            (heap st (assets st ! nat (indexOf st (assets st) nm)))
              \<lparr>status := (if s \<noteq> JBool False then Status_prop ''LOAD_SUCCESS''
                          else Status_prop ''LOAD_FAILED'')\<rparr>),
        loadCount := loadCount st - 1,
        loading := (if loadCount st - 1 = 0 then JBool False else loading st),
        trace := trace st
          @ (if s = JBool False
             then [Dispatch loadError (Some nm) (totalItems st - (loadCount st - 1)) (totalItems st)]
             else [])
          @ [Dispatch loadProgress (Some nm) (totalItems st - (loadCount st - 1)) (totalItems st)]
          @ (if loadCount st - 1 = 0
             then [Dispatch loadFinished None (totalItems st - (loadCount st - 1)) (totalItems st)]
             else [])\<rparr>"
  using assms by (simp add: loadCallback_def dispatch_def Let_def)

lemma forget_loadCallback:
  "forget_loadFunc (loadCallback nm s st) = loadCallback nm s (forget_loadFunc st)"
proof (cases "indexOf st (assets st) nm = -1")
  case True
  then show ?thesis by (simp add: loadCallback_def indexOf_forget forget_fields)
next
  case False
  then have i: "indexOf (forget_loadFunc st) (assets (forget_loadFunc st)) nm \<noteq> -1"
    by (simp add: indexOf_forget forget_fields)
  show ?thesis
    unfolding loadCallback_present_eq [OF False] loadCallback_present_eq [OF i]
      indexOf_forget forget_fields
    by (simp add: forget_loadFunc_def fun_eq_iff)
qed

lemma forget_call_loadFunc:
  "forget_loadFunc (call_loadFunc lf (\<lambda>a. loadCallback n1 s1) (\<lambda>a. loadCallback n2 s2) st)
   = call_loadFunc lf (\<lambda>a. loadCallback n1 s1) (\<lambda>a. loadCallback n2 s2) (forget_loadFunc st)"
proof (induction lf arbitrary: st)
  case Nil
  then show ?case by simp
next
  case (Cons c cs)
  then show ?case by (cases c) (simp_all add: forget_loadCallback)
qed

lemma forget_before_call_set:
  assumes "tasks st = r # rest"
  shows "forget_loadFunc (before_call (set_loadFunc r lf' st)) = forget_loadFunc (before_call st)"
  using assms
  by (simp add: forget_loadFunc_def before_call_def set_loadFunc_def dispatch_def total_def
      Let_def fun_eq_iff)

lemma update_forgets_arguments:
  assumes t: "tasks st = r # rest"
    and same: "map strip_args lf' = map strip_args (loadFunc (heap st r))"
  shows "forget_loadFunc (fst (update (set_loadFunc r lf' st))) = forget_loadFunc (fst (update st))"
    and "snd (update (set_loadFunc r lf' st)) = snd (update st)"
proof -
  let ?st' = "set_loadFunc r lf' st"
  let ?nm = "JStr (name (heap st r))"
  let ?T = "\<lambda>args::jsval list. loadCallback ?nm (JBool True)"
  let ?F = "\<lambda>args::jsval list. loadCallback ?nm (JBool False)"
  have t': "tasks ?st' = r # rest" using t by (simp add: set_loadFunc_def)
  have h': "loadFunc (heap ?st' r) = lf'" "name (heap ?st' r) = name (heap st r)"
    by (simp_all add: set_loadFunc_def)
  have u': "fst (update ?st') = call_loadFunc lf' ?T ?F (before_call ?st')"
    using update_nonempty [OF t'] by (simp add: h')
  have u: "fst (update st) = call_loadFunc (loadFunc (heap st r)) ?T ?F (before_call st)"
    using update_nonempty [OF t] by simp
  have "forget_loadFunc (fst (update ?st'))
      = call_loadFunc (map strip_args lf') ?T ?F (forget_loadFunc (before_call ?st'))"
    by (simp add: u' forget_call_loadFunc call_loadFunc_strip)
  also have "\<dots> = call_loadFunc (map strip_args (loadFunc (heap st r))) ?T ?F
      (forget_loadFunc (before_call st))"
    by (simp only: same forget_before_call_set [OF t])
  also have "\<dots> = forget_loadFunc (fst (update st))"
    by (simp add: u forget_call_loadFunc call_loadFunc_strip)
  finally show e: "forget_loadFunc (fst (update ?st')) = forget_loadFunc (fst (update st))" .
  have "loadCount (fst (update ?st')) = loadCount (fst (update st))"
    using arg_cong [OF e, of loadCount] by (simp add: forget_fields)
  moreover have "snd (update ?st') = (loadCount (fst (update ?st')) = 0)"
    using update_nonempty [OF t'] by simp
  moreover have "snd (update st) = (loadCount (fst (update st)) = 0)"
    using update_nonempty [OF t] by simp
  ultimately show "snd (update ?st') = snd (update st)" by simp
qed

lemma before_call_names:
  "names_of (before_call st) (assets (before_call st)) = names_of st (assets st)"
  by (simp add: before_call_def names_of_def dispatch_def Let_def)

lemma update_single_call_status:
  assumes t: "tasks st = r # rest"
    and p: "JStr (name (heap st r)) \<in> set (names_of st (assets st))"
  shows "loadFunc (heap st r) = [OnComplete a] \<Longrightarrow>
           getStatus (fst (update st)) (JStr (name (heap st r))) = Status_prop ''LOAD_SUCCESS''"
    and "loadFunc (heap st r) = [OnError a] \<Longrightarrow>
           getStatus (fst (update st)) (JStr (name (heap st r))) = Status_prop ''LOAD_FAILED''"
proof -
  have p': "JStr (name (heap st r)) \<in> set (names_of (before_call st) (assets (before_call st)))"
    using p by (simp add: before_call_names)
  show "loadFunc (heap st r) = [OnComplete a] \<Longrightarrow>
           getStatus (fst (update st)) (JStr (name (heap st r))) = Status_prop ''LOAD_SUCCESS''"
    using update_nonempty [OF t] loadCallback_present_status [OF p', of "JBool True"] by simp
  show "loadFunc (heap st r) = [OnError a] \<Longrightarrow>
           getStatus (fst (update st)) (JStr (name (heap st r))) = Status_prop ''LOAD_FAILED''"
    using update_nonempty [OF t] loadCallback_present_status [OF p', of "JBool False"] by simp
qed

lemma queue_sync_fields:
  "assets (queue_sync lf) = [0]" "tasks (queue_sync lf) = [0]"
  "loadCount (queue_sync lf) = 1" "totalItems (queue_sync lf) = 1"
  "loading (queue_sync lf) = JUndefined" "trace (queue_sync lf) = []"
  "heap (queue_sync lf) 0 = new_Descriptor ''s.dat'' lf (JObj ''Thing'')"
  by (simp_all add: queue_sync_def SyncLoader_def addAs_def indexOf_def queue0_fields Let_def)

lemma queue_sync_set_loadFunc:
  "set_loadFunc 0 lf' (queue_sync lf) = queue_sync lf'"
  by (simp add: set_loadFunc_def queue_sync_def SyncLoader_def addAs_def indexOf_def
      queue0_fields new_Descriptor_def Let_def)

lemma update_pending:
  assumes "tasks st = r # rest"
  shows "tasks (fst (update st)) = rest" and "assets (fst (update st)) = assets st"
  using assms
  by (simp_all add: update_def Let_def call_loadFunc_frame dispatch_def)

lemma update_Start:
  assumes t: "tasks st = r # rest"
  shows "filter is_Start (new_effects st (fst (update st))) =
     [Start (loadFunc (heap st r)) [JStr (name (heap st r)), JBool True]
        [JStr (name (heap st r)), JBool False]]"
proof -
  let ?d = "heap st r"
  let ?cb = "[JStr (name ?d), JBool True]"
  let ?cbFail = "[JStr (name ?d), JBool False]"
  have b: "before_call st = (if length (tasks st) = length (assets st)
              then dispatch loadStarted None 0 (totalItems st) (st\<lparr>loading := JBool True\<rparr>) else st)
            \<lparr>tasks := rest, trace := trace (if length (tasks st) = length (assets st)
              then dispatch loadStarted None 0 (totalItems st) (st\<lparr>loading := JBool True\<rparr>) else st)
              @ [Start (loadFunc ?d) ?cb ?cbFail]\<rparr>"
    using t by (simp add: before_call_def total_def Let_def)
  have u: "fst (update st) = call_loadFunc (loadFunc ?d) (js_bind loadCallback_call ?cb)
                (js_bind loadCallback_call ?cbFail) (before_call st)"
    using update_nonempty [OF t] by (simp add: bound_callback_fun)
  obtain evs where evs: "trace (fst (update st)) = trace (before_call st) @ evs"
      "filter is_Start evs = []"
    using call_loadFunc_trace [of "loadFunc ?d" ?cb ?cbFail "before_call st"] u by auto
  show ?thesis
    by (simp add: new_effects_def evs b dispatch_def)
qed

lemma before_call_queue_sync:
  "assets (before_call (queue_sync lf)) = [0]" "tasks (before_call (queue_sync lf)) = []"
  "loadCount (before_call (queue_sync lf)) = 1" "totalItems (before_call (queue_sync lf)) = 1"
  "loading (before_call (queue_sync lf)) = JBool True"
  "trace (before_call (queue_sync lf)) =
     [Dispatch loadStarted None 0 1,
      Start lf [JStr ''s.dat'', JBool True] [JStr ''s.dat'', JBool False]]"
  "heap (before_call (queue_sync lf)) = heap (queue_sync lf)"
  by (simp_all add: before_call_def queue_sync_fields dispatch_def total_def new_Descriptor_def Let_def)

lemma queue_txt_fields:
  "assets queue_txt = [0]"
  "heap queue_txt 0 = new_Descriptor ''notes.txt'' [] (JObj ''Image'')"
  "loaders queue_txt = loaders queue0"
  by (simp_all add: queue_txt_def addAs_def indexOf_def queue0_fields ImageLoader_def Let_def)

lemma queue0_no_txt: "loaders queue0 ''txt'' = None"
  by (simp add: queue0_def initialize_def AssetLoader_registerLoader_def registerLoader_def
      ImageLoader_def)

section \<open>One step of the driver\<close>

text \<open>
  C6. When the pending list is empty, \<open>update()\<close> returns whether \<open>remaining\<close> is 0 and
  changes nothing. When it is \<open>r # rest\<close>, the pending list afterwards is \<open>rest\<close> (the
  first descriptor is removed, the others stay in place, in order), the asset list is
  as before, the step calls exactly one start function, that of \<open>r\<close>, and the value
  returned is whether \<open>remaining\<close> is 0 in the queue as the step leaves it. The call is the
  real one: the queue the step leaves is the one the start function of \<open>r\<close> produces from
  \<open>before_call st\<close> when its first parameter is \<open>__loadCallback(name, true)\<close> and its
  second \<open>__loadCallback(name, false)\<close>, \<open>name\<close> being the name of \<open>r\<close>.
\<close>

theorem C6_update_step:
  "(tasks st = [] \<longrightarrow> update st = (st, remaining st = 0))
   \<and> (\<forall>r rest. tasks st = r # rest \<longrightarrow>
        tasks (fst (update st)) = rest
        \<and> assets (fst (update st)) = assets st
        \<and> filter is_Start (new_effects st (fst (update st))) =
            [Start (loadFunc (heap st r)) [JStr (name (heap st r)), JBool True]
               [JStr (name (heap st r)), JBool False]]
        \<and> snd (update st) = (remaining (fst (update st)) = 0)
        \<and> fst (update st) =
            call_loadFunc (loadFunc (heap st r))
              (\<lambda>args. loadCallback (JStr (name (heap st r))) (JBool True))
              (\<lambda>args. loadCallback (JStr (name (heap st r))) (JBool False))
              (before_call st))"
proof (intro conjI allI impI)
  assume "tasks st = []"
  then show "update st = (st, remaining st = 0)"
    by (simp add: update_def remaining_def)
next
  fix r rest
  assume t: "tasks st = r # rest"
  show "tasks (fst (update st)) = rest" by (rule update_pending(1) [OF t])
  show "assets (fst (update st)) = assets st" by (rule update_pending(2) [OF t])
  show "filter is_Start (new_effects st (fst (update st))) =
            [Start (loadFunc (heap st r)) [JStr (name (heap st r)), JBool True]
               [JStr (name (heap st r)), JBool False]]"
    by (rule update_Start [OF t])
  show "snd (update st) = (remaining (fst (update st)) = 0)"
    using update_nonempty [OF t] by (simp add: remaining_def)
  show "fst (update st) =
            call_loadFunc (loadFunc (heap st r))
              (\<lambda>args. loadCallback (JStr (name (heap st r))) (JBool True))
              (\<lambda>args. loadCallback (JStr (name (heap st r))) (JBool False))
              (before_call st)"
    using update_nonempty [OF t] by simp
qed

theorem C6_update_step_witness:
  "tasks queue0 = [] \<and> update queue0 = (queue0, True)
   \<and> tasks queue_ab = [0, 1]
   \<and> tasks (fst (update queue_ab)) = [1]
   \<and> filter is_Start (new_effects queue_ab (fst (update queue_ab))) =
        [Start [] [JStr ''a.png'', JBool True] [JStr ''a.png'', JBool False]]
   \<and> snd (update queue_ab) = False
   \<and> tasks (queue_sync [OnError []]) = [0]
   \<and> trace (fst (update (queue_sync [OnError []]))) =
        [Dispatch loadStarted None 0 1,
         Start [OnError []] [JStr ''s.dat'', JBool True] [JStr ''s.dat'', JBool False],
         Dispatch loadError (Some (JStr ''s.dat'')) 1 1,
         Dispatch loadProgress (Some (JStr ''s.dat'')) 1 1,
         Dispatch loadFinished None 1 1]
   \<and> status (heap (fst (update (queue_sync [OnError []]))) 0) = JUndefined
   \<and> snd (update (queue_sync [OnError []])) = True"
proof -
  let ?q = "queue_sync [OnError []]"
  have e: "tasks queue0 = []" by (simp add: queue0_fields)
  have n: "tasks queue_ab = [0, 1]" by (simp add: queue_ab_fields)
  have s: "tasks ?q = [0]" by (simp add: queue_sync_fields)
  have r: "remaining (fst (update queue_ab)) = 2"
    using queue_a_started_fields(3) by (simp add: remaining_def queue_a_started_def)
  have raw0: "update queue0 = (queue0, remaining queue0 = 0)"
    using C6_update_step [of queue0] e by blast
  have raw1: "tasks (fst (update queue_ab)) = [1]
      \<and> filter is_Start (new_effects queue_ab (fst (update queue_ab))) =
          [Start (loadFunc (heap queue_ab 0)) [JStr (name (heap queue_ab 0)), JBool True]
             [JStr (name (heap queue_ab 0)), JBool False]]
      \<and> snd (update queue_ab) = (remaining (fst (update queue_ab)) = 0)"
    using C6_update_step [of queue_ab] n by blast
  have raw2: "fst (update ?q) =
      call_loadFunc (loadFunc (heap ?q 0))
        (\<lambda>args. loadCallback (JStr (name (heap ?q 0))) (JBool True))
        (\<lambda>args. loadCallback (JStr (name (heap ?q 0))) (JBool False)) (before_call ?q)
      \<and> snd (update ?q) = (remaining (fst (update ?q)) = 0)"
    using C6_update_step [of ?q] s by blast
  have c: "loadCallback (JStr ''s.dat'') (JBool False) (before_call ?q) =
     before_call ?q
       \<lparr>heap := (heap ?q)(0 := (heap ?q 0)\<lparr>status := JUndefined\<rparr>),
        loadCount := 0, loading := JBool False,
        trace := [Dispatch loadStarted None 0 1,
         Start [OnError []] [JStr ''s.dat'', JBool True] [JStr ''s.dat'', JBool False],
         Dispatch loadError (Some (JStr ''s.dat'')) 1 1,
         Dispatch loadProgress (Some (JStr ''s.dat'')) 1 1,
         Dispatch loadFinished None 1 1]\<rparr>"
    by (simp add: loadCallback_def indexOf_def before_call_queue_sync queue_sync_fields
        new_Descriptor_def dispatch_def Status_prop_def Status_def Let_def)
  have u: "fst (update ?q) =
     before_call ?q
       \<lparr>heap := (heap ?q)(0 := (heap ?q 0)\<lparr>status := JUndefined\<rparr>),
        loadCount := 0, loading := JBool False,
        trace := [Dispatch loadStarted None 0 1,
         Start [OnError []] [JStr ''s.dat'', JBool True] [JStr ''s.dat'', JBool False],
         Dispatch loadError (Some (JStr ''s.dat'')) 1 1,
         Dispatch loadProgress (Some (JStr ''s.dat'')) 1 1,
         Dispatch loadFinished None 1 1]\<rparr>"
    using raw2 c by (simp add: queue_sync_fields new_Descriptor_def)
  have sn: "snd (update ?q) = True"
    using raw2 by (simp add: u remaining_def)
  have tr: "trace (fst (update ?q)) =
        [Dispatch loadStarted None 0 1,
         Start [OnError []] [JStr ''s.dat'', JBool True] [JStr ''s.dat'', JBool False],
         Dispatch loadError (Some (JStr ''s.dat'')) 1 1,
         Dispatch loadProgress (Some (JStr ''s.dat'')) 1 1,
         Dispatch loadFinished None 1 1]"
    and stt: "status (heap (fst (update ?q)) 0) = JUndefined"
    by (simp_all add: u)
  have q0: "update queue0 = (queue0, True)"
    using raw0 by (simp add: remaining_def queue0_fields)
  have ab: "filter is_Start (new_effects queue_ab (fst (update queue_ab))) =
        [Start [] [JStr ''a.png'', JBool True] [JStr ''a.png'', JBool False]]"
    "snd (update queue_ab) = False"
    using raw1 r by (simp_all add: queue_ab_fields new_Descriptor_def)
  from e q0 n raw1 ab s tr stt sn show ?thesis by blast
qed

section \<open>Completion of an asset that is present\<close>

text \<open>
  C7. A completion callback for a name that has a descriptor in the asset list lowers
  \<open>remaining\<close> by exactly one and leaves \<open>total\<close> alone. It fires exactly one progress
  event carrying the name, \<open>current = total - remaining\<close> as it is after the decrement,
  and \<open>total\<close>; an error event with the same payload comes immediately before it exactly
  when the outcome is a failure (the success argument is \<open>false\<close>); a finished event
  comes after it exactly when \<open>remaining\<close> has reached 0, and then the loading flag is
  cleared, otherwise the flag is as before.
\<close>

theorem C7_completion_of_present_asset:
  assumes "nm \<in> set (names_of st (assets st))"
  shows "remaining (loadCallback nm s st) = remaining st - 1
    \<and> total (loadCallback nm s st) = total st
    \<and> new_effects st (loadCallback nm s st) =
        (if s = JBool False
         then [Dispatch loadError (Some nm) (current (loadCallback nm s st)) (total (loadCallback nm s st))]
         else [])
        @ [Dispatch loadProgress (Some nm) (current (loadCallback nm s st)) (total (loadCallback nm s st))]
        @ (if remaining (loadCallback nm s st) = 0
           then [Dispatch loadFinished None (current (loadCallback nm s st)) (total (loadCallback nm s st))]
           else [])
    \<and> loading (loadCallback nm s st) =
        (if remaining (loadCallback nm s st) = 0 then JBool False else loading st)"
  by (simp add: remaining_def total_def current_def new_effects_def
      loadCallback_present_counts [OF assms] loadCallback_present_loading [OF assms]
      loadCallback_present_trace [OF assms] loadCallback_frame)

theorem C7_completion_of_present_asset_witness:
  "JStr ''b.gif'' \<in> set (names_of queue_inflight (assets queue_inflight))
   \<and> remaining (loadCallback (JStr ''b.gif'') (JBool False) queue_inflight) = 1
   \<and> new_effects queue_inflight (loadCallback (JStr ''b.gif'') (JBool False) queue_inflight) =
       [Dispatch loadError (Some (JStr ''b.gif'')) 1 2,
        Dispatch loadProgress (Some (JStr ''b.gif'')) 1 2]
   \<and> loading (loadCallback (JStr ''b.gif'') (JBool False) queue_inflight) = JBool True"
proof -
  have h: "JStr ''b.gif'' \<in> set (names_of queue_inflight (assets queue_inflight))"
    by (simp add: queue_inflight_names)
  from C7_completion_of_present_asset [OF h, of "JBool False"] h show ?thesis
    by (simp add: remaining_def total_def current_def queue_inflight_fields)
qed

section \<open>Completion of an asset that was removed\<close>

text \<open>
  C8. A completion callback, success or failure, bound to a name that no descriptor of
  the asset list has, returns the queue it was given: asset list, pending list,
  counters, statuses, the loading flag and the trace of events are all unchanged, with
  whatever arguments the loader passes.
\<close>

theorem C8_completion_of_absent_asset:
  assumes "nm \<notin> set (names_of st (assets st))"
  shows "cb_of nm args st = st \<and> cbFail_of nm args st = st"
  using assms by (simp add: cb_of_def cbFail_of_def bound_callback_eq loadCallback_absent)

theorem C8_completion_of_absent_asset_witness:
  "JStr ''a.png'' \<notin> set (names_of queue_a_removed (assets queue_a_removed))
   \<and> cb_of (JStr ''a.png'') [] queue_a_removed = queue_a_removed
   \<and> cbFail_of (JStr ''a.png'') [JBool False] queue_a_removed = queue_a_removed"
proof -
  have h: "JStr ''a.png'' \<notin> set (names_of queue_a_removed (assets queue_a_removed))"
    by (simp add: names_of_def queue_a_removed_fields new_Descriptor_def)
  from C8_completion_of_absent_asset [OF h, of "[]"] C8_completion_of_absent_asset [OF h, of "[JBool False]"] h show ?thesis
    by simp
qed

section \<open>The outcome is fixed when the callback is bound\<close>

text \<open>
  C10. The callbacks \<open>update()\<close> hands to the start function of the descriptor \<open>r\<close> are
  \<open>__loadCallback\<close> with the name of \<open>r\<close> and the success flag bound (\<open>cb_of\<close> and
  \<open>cbFail_of\<close> of that name): the call recorded names these bound arguments, and the queue
  the step leaves is the one the start function produces with exactly these two
  callbacks. The arguments of a call of either callback land in parameters the function
  does not have: the success callback is \<open>__loadCallback(name, true)\<close> and the failure
  callback \<open>__loadCallback(name, false)\<close> for every argument list. Hence two start
  functions that call the same callbacks in the same order, with whatever arguments,
  leave the same queue (statuses, counters, flag, events) and the same return value of
  \<open>update()\<close>. In particular the success callback called with \<open>false\<close>, later or before
  the start function returns, records LOAD_SUCCESS for an asset that is present.
\<close>

theorem C10_outcome_bound:
  "cb_of nm args st = loadCallback nm (JBool True) st
   \<and> cbFail_of nm args st = loadCallback nm (JBool False) st
   \<and> (nm \<in> set (names_of st (assets st)) \<longrightarrow>
        getStatus (cb_of nm [JBool False] st) nm = JStr ''LOAD_SUCCESS'')
   \<and> (\<forall>r rest. tasks st = r # rest \<longrightarrow>
        filter is_Start (new_effects st (fst (update st))) =
            [Start (loadFunc (heap st r)) [JStr (name (heap st r)), JBool True]
               [JStr (name (heap st r)), JBool False]]
        \<and> js_bind loadCallback_call [JStr (name (heap st r)), JBool True]
            = cb_of (JStr (name (heap st r)))
        \<and> js_bind loadCallback_call [JStr (name (heap st r)), JBool False]
            = cbFail_of (JStr (name (heap st r)))
        \<and> fst (update st) =
            call_loadFunc (loadFunc (heap st r)) (cb_of (JStr (name (heap st r))))
              (cbFail_of (JStr (name (heap st r)))) (before_call st)
        \<and> (\<forall>lf'. map strip_args lf' = map strip_args (loadFunc (heap st r)) \<longrightarrow>
              forget_loadFunc (fst (update (set_loadFunc r lf' st))) = forget_loadFunc (fst (update st))
              \<and> snd (update (set_loadFunc r lf' st)) = snd (update st))
        \<and> (\<forall>a. loadFunc (heap st r) = [OnComplete a]
                \<and> JStr (name (heap st r)) \<in> set (names_of st (assets st)) \<longrightarrow>
              getStatus (fst (update st)) (JStr (name (heap st r))) = JStr ''LOAD_SUCCESS''))"
proof (intro conjI allI impI)
  show "cb_of nm args st = loadCallback nm (JBool True) st"
    by (simp add: cb_of_def bound_callback_eq)
  show "cbFail_of nm args st = loadCallback nm (JBool False) st"
    by (simp add: cbFail_of_def bound_callback_eq)
  show "getStatus (cb_of nm [JBool False] st) nm = JStr ''LOAD_SUCCESS''"
    if "nm \<in> set (names_of st (assets st))"
    using that by (simp add: cb_of_def bound_callback_eq loadCallback_present_status
        Status_prop_def Status_def)
next
  fix r rest
  assume t: "tasks st = r # rest"
  show "filter is_Start (new_effects st (fst (update st))) =
            [Start (loadFunc (heap st r)) [JStr (name (heap st r)), JBool True]
               [JStr (name (heap st r)), JBool False]]"
    by (rule update_Start [OF t])
  show "js_bind loadCallback_call [JStr (name (heap st r)), JBool True]
            = cb_of (JStr (name (heap st r)))"
    by (simp add: cb_of_def)
  show "js_bind loadCallback_call [JStr (name (heap st r)), JBool False]
            = cbFail_of (JStr (name (heap st r)))"
    by (simp add: cbFail_of_def)
  show "fst (update st) =
            call_loadFunc (loadFunc (heap st r)) (cb_of (JStr (name (heap st r))))
              (cbFail_of (JStr (name (heap st r)))) (before_call st)"
    using update_nonempty [OF t] by (simp add: cb_of_def cbFail_of_def bound_callback_fun)
  {
    fix lf'
    assume same: "map strip_args lf' = map strip_args (loadFunc (heap st r))"
    show "forget_loadFunc (fst (update (set_loadFunc r lf' st))) = forget_loadFunc (fst (update st))"
      by (rule update_forgets_arguments(1) [OF t same])
    show "snd (update (set_loadFunc r lf' st)) = snd (update st)"
      by (rule update_forgets_arguments(2) [OF t same])
  }
  {
    fix a
    assume h: "loadFunc (heap st r) = [OnComplete a]
                \<and> JStr (name (heap st r)) \<in> set (names_of st (assets st))"
    then show "getStatus (fst (update st)) (JStr (name (heap st r))) = JStr ''LOAD_SUCCESS''"
      using update_single_call_status(1) [OF t, of a] by (simp add: Status_prop_def Status_def)
  }
qed

theorem C10_outcome_bound_witness:
  "JStr ''a.png'' \<in> set (names_of queue_inflight (assets queue_inflight))
   \<and> cb_of (JStr ''a.png'') [JBool False] queue_inflight = cb_of (JStr ''a.png'') [] queue_inflight
   \<and> getStatus (cb_of (JStr ''a.png'') [JBool False] queue_inflight) (JStr ''a.png'')
       = JStr ''LOAD_SUCCESS''
   \<and> tasks (queue_sync [OnComplete [JBool False]]) = [0]
   \<and> map strip_args [OnComplete []] = map strip_args [OnComplete [JBool False]]
   \<and> forget_loadFunc (fst (update (queue_sync [OnComplete []])))
       = forget_loadFunc (fst (update (queue_sync [OnComplete [JBool False]])))
   \<and> snd (update (queue_sync [OnComplete []])) = snd (update (queue_sync [OnComplete [JBool False]]))
   \<and> JStr ''s.dat'' \<in> set (names_of (queue_sync [OnComplete [JBool False]])
         (assets (queue_sync [OnComplete [JBool False]])))
   \<and> getStatus (fst (update (queue_sync [OnComplete [JBool False]]))) (JStr ''s.dat'')
       = JStr ''LOAD_SUCCESS''"
proof -
  let ?q = "queue_sync [OnComplete [JBool False]]"
  have h: "JStr ''a.png'' \<in> set (names_of queue_inflight (assets queue_inflight))"
    by (simp add: queue_inflight_names)
  have t: "tasks ?q = [0]" by (simp add: queue_sync_fields)
  have lf: "loadFunc (heap ?q 0) = [OnComplete [JBool False]]" "name (heap ?q 0) = ''s.dat''"
    by (simp_all add: queue_sync_fields new_Descriptor_def)
  have p: "JStr ''s.dat'' \<in> set (names_of ?q (assets ?q))"
    by (simp add: names_of_def queue_sync_fields new_Descriptor_def)
  have m: "map strip_args [OnComplete []] = map strip_args [OnComplete [JBool False]]" by simp
  have a1: "cb_of (JStr ''a.png'') [JBool False] queue_inflight
      = cb_of (JStr ''a.png'') [] queue_inflight"
    using C10_outcome_bound [of "JStr ''a.png''" "[JBool False]" queue_inflight]
      C10_outcome_bound [of "JStr ''a.png''" "[]" queue_inflight] by simp
  have a2: "getStatus (cb_of (JStr ''a.png'') [JBool False] queue_inflight) (JStr ''a.png'')
       = JStr ''LOAD_SUCCESS''"
    using C10_outcome_bound [of "JStr ''a.png''" "[JBool False]" queue_inflight] h by blast
  note X = C10_outcome_bound [of "JStr ''s.dat''" "[]" ?q, THEN conjunct2, THEN conjunct2,
      THEN conjunct2, rule_format, OF t]
  have m': "map strip_args [OnComplete []] = map strip_args (loadFunc (heap ?q 0))"
    by (simp add: lf)
  have p': "loadFunc (heap ?q 0) = [OnComplete [JBool False]]
      \<and> JStr (name (heap ?q 0)) \<in> set (names_of ?q (assets ?q))"
    using p by (simp add: lf)
  from X m' have f: "forget_loadFunc (fst (update (set_loadFunc 0 [OnComplete []] ?q)))
       = forget_loadFunc (fst (update ?q))
      \<and> snd (update (set_loadFunc 0 [OnComplete []] ?q)) = snd (update ?q)"
    by blast
  from X p' have g: "getStatus (fst (update ?q)) (JStr (name (heap ?q 0))) = JStr ''LOAD_SUCCESS''"
    by blast
  from f have f': "forget_loadFunc (fst (update (queue_sync [OnComplete []])))
       = forget_loadFunc (fst (update ?q))
      \<and> snd (update (queue_sync [OnComplete []])) = snd (update ?q)"
    by (simp add: queue_sync_set_loadFunc)
  from g have g': "getStatus (fst (update ?q)) (JStr ''s.dat'') = JStr ''LOAD_SUCCESS''"
    by (simp add: lf)
  from h a1 a2 t m f' p g' show ?thesis by blast
qed

section \<open>Where the code departs from the documented behaviour\<close>

text \<open>
  C1. The claim: after the failure callback of an asset that is present, \<open>getStatus\<close>
  gives the LOAD_FAIL member of the status enumeration. In the code the handler assigns
  \<open>AssetLoader.Status.LOAD_FAILED\<close>, a property the enumeration does not have: with both
  loads in flight, after the failure callback of b.gif its status is \<open>undefined\<close>, while
  the LOAD_FAIL member is the string "LOAD_FAIL".
\<close>

theorem C1_failed_status_is_undefined:
  "getStatus (cbFail_of (JStr ''b.gif'') [] queue_inflight) (JStr ''b.gif'') = JUndefined
   \<and> Status_prop ''LOAD_FAIL'' = JStr ''LOAD_FAIL''"
proof -
  have h: "JStr ''b.gif'' \<in> set (names_of queue_inflight (assets queue_inflight))"
    by (simp add: queue_inflight_names)
  show ?thesis
    by (simp add: cbFail_of_def bound_callback_eq loadCallback_present_status [OF h]
        Status_prop_def Status_def)
qed

text \<open>
  C2. The claim: \<open>remaining\<close> never goes below zero. In the code \<open>remove\<close> lowers
  \<open>__loadCount\<close> also for an asset that has already completed, and \<open>__loadCallback\<close>
  decrements without a floor: a.png and b.gif are added and started, b.gif completes,
  b.gif is removed (a.png is still present and \<open>remaining\<close> is 0), and then the
  completion of a.png leaves \<open>remaining\<close> at -1.
\<close>

theorem C2_remaining_negative:
  "names_of queue_b_removed (assets queue_b_removed) = [JStr ''a.png'']
   \<and> remaining queue_b_removed = 0
   \<and> remaining queue_a_late = -1"
  by (simp add: names_of_def remaining_def queue_a_late_def cb_of_def bound_callback_eq
      loadCallback_def indexOf_def queue_b_removed_fields dispatch_def Let_def new_Descriptor_def)

text \<open>
  C3. The claim: the condition under which \<open>update()\<close> fires the started event holds
  only while no task has been started, so the event fires at most once per load cycle.
  In the code the condition compares the lengths of the two lists: a.png and b.gif are
  added, \<open>update()\<close> starts a.png, a.png is removed, and the next \<open>update()\<close> fires the
  started event a second time, with no reset and no finished event in between.
\<close>

theorem C3_started_fires_twice:
  "trace queue_b_started =
     [Dispatch loadStarted None 0 2,
      Start [] [JStr ''a.png'', JBool True] [JStr ''a.png'', JBool False],
      Dispatch loadStarted None 0 1,
      Start [] [JStr ''b.gif'', JBool True] [JStr ''b.gif'', JBool False]]"
  by (simp add: queue_b_started_fields)

text \<open>
  C5. The claim: a descriptor whose start function has been called by \<open>update()\<close> and
  whose callback has not fired has the status Loading. In the code nothing assigns
  \<open>Status.LOADING\<close>: after a.png has been started by \<open>update()\<close> its status is still
  "QUEUED".
\<close>

theorem C5_started_asset_still_queued:
  "new_effects queue_ab queue_a_started =
     [Dispatch loadStarted None 0 2,
      Start [] [JStr ''a.png'', JBool True] [JStr ''a.png'', JBool False]]
   \<and> getStatus queue_a_started (JStr ''a.png'') = JStr ''QUEUED''
   \<and> Status_prop ''LOADING'' = JStr ''LOADING''"
  by (simp add: new_effects_def getStatus_def getDescriptor_def indexOf_def
      queue_a_started_fields queue_ab_fields new_Descriptor_def Status_prop_def Status_def)

section \<open>Data URIs without a comma\<close>

text \<open>
  C4, as claimed: for every name that begins with \<open>data:\<close> and has no comma, key
  resolution yields no key and \<open>add(name)\<close> raises, leaving the queue as it was, whatever
  the registry holds. This fails: \<open>__getDataType\<close> answers \<open>null\<close> for such a name, and
  \<open>add\<close> treats \<open>null\<close> as "not a data URI" and goes on to the file extension. With the
  default registry, \<open>add("data:a.png")\<close> resolves the key png, returns the Image and
  the queue has one asset more.
\<close>

theorem C4_malformed_data_uri_counterexample:
  "take 5 ''data:a.png'' = ''data:'' \<and> CHR '','' \<notin> set ''data:a.png''
   \<and> extension ''data:a.png'' = ''png''
   \<and> snd (add ''data:a.png'' [] queue0) = Inr (JObj ''Image'')
   \<and> total (fst (add ''data:a.png'' [] queue0)) = 1
   \<and> total queue0 = 0"
  by (simp add: total_def queue0_fields queue0_loaders add_def addAs_def getDataType_def
      extension_def str_lastIndexOf_def str_indexOf_def toLowerCase_def toLowerCase_char_def
      indexOf_def ImageLoader_def Let_def)

text \<open>
  C4, amended: for every name that begins with \<open>data:\<close> and has no comma, the data-URI
  step yields no key (\<open>null\<close>) and \<open>add(name)\<close> falls back to the file extension of the
  name. If the name has no file extension, or no loader is registered for it, \<open>add\<close>
  raises and the queue is unchanged; otherwise \<open>add\<close> is \<open>addAs\<close> with the loader
  registered for the extension.
\<close>

theorem C4_malformed_data_uri:
  assumes "take 5 nm = ''data:''" and "CHR '','' \<notin> set nm"
  shows "getDataType nm = None
    \<and> (if extension nm = [] \<or> loaders st (extension nm) = None
        then \<exists>msg. add nm args st = (st, Inl (Thrown msg))
        else add nm args st = addAs (loaders st (extension nm)) nm args st)"
proof -
  have g: "getDataType nm = None" by (rule getDataType_no_comma [OF assms])
  have ne: "nm \<noteq> []" using assms(1) by auto
  show ?thesis using g ne by (auto simp: add_def Let_def)
qed

theorem C4_malformed_data_uri_witness:
  "take 5 ''data:abc'' = ''data:'' \<and> CHR '','' \<notin> set ''data:abc''
   \<and> getDataType ''data:abc'' = None
   \<and> extension ''data:abc'' = []
   \<and> (\<exists>msg. add ''data:abc'' [] queue0 = (queue0, Inl (Thrown msg)))
   \<and> take 5 ''data:a.png'' = ''data:'' \<and> CHR '','' \<notin> set ''data:a.png''
   \<and> extension ''data:a.png'' = ''png''
   \<and> add ''data:a.png'' [] queue0 = addAs (Some ImageLoader) ''data:a.png'' [] queue0"
proof -
  have h1: "take 5 ''data:abc'' = ''data:''" by simp
  have h2: "CHR '','' \<notin> set ''data:abc''" by simp
  have e: "extension ''data:abc'' = []"
    by (simp add: extension_def str_lastIndexOf_def)
  have k1: "take 5 ''data:a.png'' = ''data:''" by simp
  have k2: "CHR '','' \<notin> set ''data:a.png''" by simp
  have e2: "extension ''data:a.png'' = ''png''"
    by (simp add: extension_def str_lastIndexOf_def toLowerCase_def toLowerCase_char_def)
  from C4_malformed_data_uri [OF h1 h2, of queue0 "[]"] C4_malformed_data_uri [OF k1 k2, of queue0 "[]"] e e2
  show ?thesis by (simp add: queue0_loaders)
qed

section \<open>Adding a name twice\<close>

text \<open>
  C9, as claimed: when the queue has a descriptor named \<open>n\<close>, \<open>add\<close> and \<open>addAs\<close> for \<open>n\<close>
  raise the DuplicateAsset error. This fails where an earlier check of the call raises
  first: in a queue holding "sprite" (added with an explicit loader), \<open>add("sprite")\<close>
  raises the missing-extension error and \<open>addAs(undefined, "sprite")\<close> the
  missing-loader error. The queue is unchanged in both.
\<close>

theorem C9_duplicate_add_counterexample:
  "names_of queue_sprite (assets queue_sprite) = [JStr ''sprite'']
   \<and> add ''sprite'' [] queue_sprite =
       (queue_sprite, Inl (Thrown ''Asset name does not have a file extension: sprite''))
   \<and> Thrown ''Asset name does not have a file extension: sprite'' \<noteq> DuplicateAsset
   \<and> addAs None ''sprite'' [] queue_sprite =
       (queue_sprite, Inl (Thrown ''no loader specified for asset sprite''))
   \<and> Thrown ''no loader specified for asset sprite'' \<noteq> DuplicateAsset"
  by (simp add: names_of_def queue_sprite_fields new_Descriptor_def add_def addAs_def
      getDataType_def extension_def str_lastIndexOf_def toLowerCase_def toLowerCase_char_def
      DuplicateAsset_def Let_def)

text \<open>
  C9, amended: when the queue has a descriptor named \<open>n\<close>, every \<open>add\<close> and \<open>addAs\<close> call
  for \<open>n\<close> raises an error and returns the queue exactly as it was (descriptors, asset
  list, pending list, \<open>remaining\<close>, \<open>total\<close>). The error is that of the first check the
  call fails. For \<open>addAs\<close>: the missing-name error for an empty name, else the
  missing-loader error when no loader is given, else DuplicateAsset. For \<open>add\<close>: the
  missing-name error for an empty name, else the missing-extension error when the name
  resolves to no key, else the no-loader-found error when no loader is registered for
  the key, else DuplicateAsset.
\<close>

theorem C9_duplicate_add:
  assumes "JStr n \<in> set (names_of st (assets st))"
  shows "addAs l n args st =
      (st, Inl (if n = [] then Thrown ''no name specified to load''
                else if l = None then Thrown (''no loader specified for asset '' @ n)
                else DuplicateAsset))
    \<and> add n args st =
      (st, Inl (if n = [] then Thrown ''No asset name specified for add()''
                else if loader_key n = []
                  then Thrown (''Asset name does not have a file extension: '' @ n)
                else if loaders st (loader_key n) = None
                  then Thrown (''No known loader for extension '' @ loader_key n
                                @ '' in asset '' @ n)
                else DuplicateAsset))"
proof -
  have i: "indexOf st (assets st) (JStr n) \<noteq> -1"
    using indexOf_present(1) [OF assms] by simp
  have a: "\<And>l. addAs l n args st =
      (st, Inl (if n = [] then Thrown ''no name specified to load''
                else if l = None then Thrown (''no loader specified for asset '' @ n)
                else DuplicateAsset))"
    using i by (auto simp: addAs_def Let_def split: option.splits)
  have b: "add n args st =
      (st, Inl (if n = [] then Thrown ''No asset name specified for add()''
                else if loader_key n = []
                  then Thrown (''Asset name does not have a file extension: '' @ n)
                else if loaders st (loader_key n) = None
                  then Thrown (''No known loader for extension '' @ loader_key n
                                @ '' in asset '' @ n)
                else DuplicateAsset))"
    unfolding add_def Let_def loader_key_def [symmetric] a by auto
  from a [of l] b show ?thesis by blast
qed

theorem C9_duplicate_add_witness:
  "JStr ''a.png'' \<in> set (names_of queue_inflight (assets queue_inflight))
   \<and> addAs (Some ImageLoader) ''a.png'' [] queue_inflight = (queue_inflight, Inl DuplicateAsset)
   \<and> add ''a.png'' [] queue_inflight = (queue_inflight, Inl DuplicateAsset)
   \<and> JStr ''sprite'' \<in> set (names_of queue_sprite (assets queue_sprite))
   \<and> addAs None ''sprite'' [] queue_sprite =
       (queue_sprite, Inl (Thrown ''no loader specified for asset sprite''))
   \<and> add ''sprite'' [] queue_sprite =
       (queue_sprite, Inl (Thrown ''Asset name does not have a file extension: sprite''))
   \<and> JStr ''notes.txt'' \<in> set (names_of queue_txt (assets queue_txt))
   \<and> add ''notes.txt'' [] queue_txt =
       (queue_txt, Inl (Thrown ''No known loader for extension txt in asset notes.txt''))"
proof -
  have h: "JStr ''a.png'' \<in> set (names_of queue_inflight (assets queue_inflight))"
    by (simp add: queue_inflight_names)
  have hs: "JStr ''sprite'' \<in> set (names_of queue_sprite (assets queue_sprite))"
    by (simp add: names_of_def queue_sprite_fields new_Descriptor_def)
  have ht: "JStr ''notes.txt'' \<in> set (names_of queue_txt (assets queue_txt))"
    by (simp add: names_of_def queue_txt_fields new_Descriptor_def)
  have k: "loader_key ''a.png'' = ''png''" "loader_key ''sprite'' = []"
    "loader_key ''notes.txt'' = ''txt''"
    by (simp_all add: loader_key_def getDataType_def extension_def str_lastIndexOf_def
        toLowerCase_def toLowerCase_char_def)
  have l: "loaders queue_inflight ''png'' = Some ImageLoader"
    by (simp add: queue_loaders queue0_loaders)
  have lt: "loaders queue_txt ''txt'' = None"
    by (simp add: queue_txt_fields queue0_no_txt)
  have r1: "addAs (Some ImageLoader) ''a.png'' [] queue_inflight = (queue_inflight, Inl DuplicateAsset)"
    "add ''a.png'' [] queue_inflight = (queue_inflight, Inl DuplicateAsset)"
    using C9_duplicate_add [OF h, of "Some ImageLoader" "[]"] by (simp_all add: k l)
  have r2: "addAs None ''sprite'' [] queue_sprite =
       (queue_sprite, Inl (Thrown ''no loader specified for asset sprite''))"
    "add ''sprite'' [] queue_sprite =
       (queue_sprite, Inl (Thrown ''Asset name does not have a file extension: sprite''))"
    using C9_duplicate_add [OF hs, of None "[]"] by (simp_all add: k)
  have r3: "add ''notes.txt'' [] queue_txt =
       (queue_txt, Inl (Thrown ''No known loader for extension txt in asset notes.txt''))"
    using C9_duplicate_add [OF ht, of None "[]"] by (simp add: k lt)
  from h hs ht r1 r2 r3 show ?thesis by blast
qed

end
